theory Spec2Isabelle
  imports Complex_Main
begin

section \<open>Moo Mines: the round engine, the payout curve and the claim economy\<close>

text \<open>
  The development embeds the logic of \<^verbatim>\<open>src/App.jsx\<close>: the module constants, the
  function \<^verbatim>\<open>curvedMultiplier\<close>, and the event handlers of the component
  \<^verbatim>\<open>MooMines\<close> as functions from the component state to the next component state.

  Conventions of the embedding.
  \<^item> A JavaScript number is a real number, and there is no \<^verbatim>\<open>NaN\<close> and no infinity.
    The arithmetic whose result the code rounds to two decimals (the difference in
    \<^verbatim>\<open>startGame\<close>, the product in \<^verbatim>\<open>potentialPayout\<close>, the sum in \<^verbatim>\<open>cashOut\<close>)
    is the arithmetic of IEEE doubles: the exact result rounded to the nearest double by
    \<open>rd\<close>, which decides the hundredth that \<^verbatim>\<open>toFixed(2)\<close> picks. So is every
    conversion of a decimal text to a number (\<^verbatim>\<open>Number(...)\<close>). Inside
    \<^verbatim>\<open>curvedMultiplier\<close>, where \<^verbatim>\<open>Math.pow\<close> has no prescribed rounding, and in the
    sum of \<^verbatim>\<open>claimPoints\<close> the operations are the mathematical ones. Counters, tile
    indices and timestamps, which the code only ever computes as whole numbers, are
    integers.
  \<^item> The React state of the component is a record; a handler reads the state of the
    render it was created in and its \<^verbatim>\<open>set...\<close> calls give the next state.
  \<^item> \<^verbatim>\<open>Math.random()\<close> and \<^verbatim>\<open>Date.now()\<close> are arguments of the handlers that
    call them.
  \<^item> The audio cues \<^verbatim>\<open>moo()\<close> and \<^verbatim>\<open>bear()\<close> and the writes to
    \<^verbatim>\<open>localStorage\<close> do not change the component state and are left out.
\<close>

subsection \<open>Constants\<close>

definition SIZE :: int where
  "SIZE = 5"

definition TOTAL_TILES :: int where
  "TOTAL_TILES = SIZE * SIZE"

definition SAFE_TILES :: int where
  "SAFE_TILES = TOTAL_TILES - 1"

definition MIN_MULT :: real where
  "MIN_MULT = 1.0"

definition MAX_MULT :: real where
  "MAX_MULT = 20.0"


definition CLAIM_INTERVAL :: int where
  "CLAIM_INTERVAL = 6 * 60 * 60 * 1000"

subsection \<open>Double precision\<close>

text \<open>
  The nearest integer, the even one of two that are equally near.
\<close>

definition rne :: "real \<Rightarrow> int" where
  "rne y =
     (let f = \<lfloor>y\<rfloor> in
      if y - of_int f < 1 / 2 then f
      else if 1 / 2 < y - of_int f then f + 1
      else if even f then f else f + 1)"

text \<open>
  A double has a significand of 53 bits. For \<open>2\<^sup>e \<le> \<bar>x\<bar> < 2\<^sup>e\<^sup>+\<^sup>1\<close> the doubles around
  \<open>x\<close> are the multiples of \<open>2\<^sup>e\<^sup>-\<^sup>5\<^sup>2\<close>; below \<open>2\<^sup>-\<^sup>1\<^sup>0\<^sup>2\<^sup>2\<close> they are the multiples of
  \<open>2\<^sup>-\<^sup>1\<^sup>0\<^sup>7\<^sup>4\<close>. \<open>rd x\<close> is the double nearest to \<open>x\<close>, ties to the even significand:
  the result of an IEEE operation whose exact result is \<open>x\<close>, and of reading the decimal
  text of \<open>x\<close>. (Results of \<open>2\<^sup>1\<^sup>0\<^sup>2\<^sup>4\<close> and more, which are infinite in JavaScript, are
  outside the model.)
\<close>

definition expo :: "real \<Rightarrow> int" where
  "expo x = max \<lfloor>log 2 \<bar>x\<bar>\<rfloor> (- 1022)"

definition ulp :: "real \<Rightarrow> real" where
  "ulp x = 2 powi (expo x - 52)"

definition rd :: "real \<Rightarrow> real" where
  "rd x =
     (if x = 0 then 0
      else sgn x * of_int (rne (\<bar>x\<bar> / ulp x)) * ulp x)"

subsection \<open>Rounding to two decimals\<close>

text \<open>
  \<^verbatim>\<open>x.toFixed(2)\<close> works on the absolute value, puts the sign back, and picks the
  integer \<open>n\<close> with \<open>n / 100\<close> nearest to the value, the larger one of two that are
  equally near: rounding half away from zero, of the exact value of the double.
  (From \<open>10\<^sup>2\<^sup>1\<close> on \<^verbatim>\<open>toFixed\<close> prints the number itself; a double of that size is
  a whole number, which the rounding below leaves as it is.)
\<close>

definition round2 :: "real \<Rightarrow> real" where
  "round2 x =
     (if x < 0 then - (of_int \<lfloor>(- x) * 100 + 1 / 2\<rfloor> / 100)
      else of_int \<lfloor>x * 100 + 1 / 2\<rfloor> / 100)"

text \<open>\<^verbatim>\<open>Number(x.toFixed(2))\<close>: the printed decimal, read back as a double.\<close>

definition toFixed2 :: "real \<Rightarrow> real" where
  "toFixed2 x = rd (round2 x)"

subsection \<open>The payout curve\<close>

definition curvedMultiplier :: "int \<Rightarrow> real" where
  "curvedMultiplier safeRevealed =
     (if safeRevealed = 0 then 1.0
      else
        let gamma = 2.2;
            t = min (max (of_int safeRevealed / of_int SAFE_TILES) 0) 1;
            m = 1.05 + (MAX_MULT - 1.05) * (t powr gamma)
        in toFixed2 m)"

text \<open>\<^verbatim>\<open>Math.floor(Math.random() * TOTAL_TILES)\<close>, with the random draw \<open>u\<close> as argument.\<close>

definition randomMineIndex :: "real \<Rightarrow> int" where
  "randomMineIndex u = \<lfloor>u * of_int TOTAL_TILES\<rfloor>"

subsection \<open>The array of revealed tiles\<close>

text \<open>
  \<^verbatim>\<open>revealed\<close> is a JavaScript array of booleans, read and written at an index the
  handler does not check. An integer \<open>i\<close> with \<open>0 \<le> i < 2\<^sup>3\<^sup>2 - 1\<close> is an array index:
  writing at or beyond the length extends the array, and the holes in between read as
  \<^verbatim>\<open>undefined\<close>, which is falsy (\<open>False\<close> here). Any other integer is an ordinary
  property of the array object: it can be written and read back, but \<^verbatim>\<open>slice()\<close>
  copies the indexed elements only. \<open>named\<close> holds the keys of such properties that
  were set to \<^verbatim>\<open>true\<close>.
\<close>

record js_array =
  cells :: "bool list"
  named :: "int set"

definition is_array_index :: "int \<Rightarrow> bool" where
  "is_array_index i = (0 \<le> i \<and> i < 2 ^ 32 - 1)"

text \<open>\<^verbatim>\<open>a[i]\<close>, as a condition.\<close>

definition arr_get :: "js_array \<Rightarrow> int \<Rightarrow> bool" where
  "arr_get a i =
     (if is_array_index i then nat i < length (cells a) \<and> cells a ! nat i
      else i \<in> named a)"

text \<open>\<^verbatim>\<open>a[i] = true\<close>.\<close>

definition arr_set_true :: "js_array \<Rightarrow> int \<Rightarrow> js_array" where
  "arr_set_true a i =
     (if is_array_index i then
        (if nat i < length (cells a) then a\<lparr>cells := (cells a)[nat i := True]\<rparr>
         else a\<lparr>cells := cells a @ replicate (nat i - length (cells a)) False @ [True]\<rparr>)
      else a\<lparr>named := insert i (named a)\<rparr>)"

text \<open>\<^verbatim>\<open>a.slice()\<close>.\<close>

definition slice :: "js_array \<Rightarrow> js_array" where
  "slice a = a\<lparr>named := {}\<rparr>"

text \<open>\<^verbatim>\<open>Array(TOTAL_TILES).fill(false)\<close>.\<close>

definition fresh_board :: js_array where
  "fresh_board = \<lparr>cells = replicate (nat TOTAL_TILES) False, named = {}\<rparr>"

subsection \<open>The component state\<close>

datatype phase = Idle | Playing | Cashout | Busted

record game =
  balance :: real
  wager :: real
  mineIdx :: int
  revealed :: js_array
  gameState :: phase
  safeRevealed :: int
  lastClaim :: int

text \<open>
  The state of the first render: balance and last claim come from the store (\<open>1000\<close> and
  \<open>0\<close> when the store has none), the balance by \<^verbatim>\<open>Number(saved)\<close> from its decimal
  text; the hazard comes from a random draw \<open>u\<close>.
\<close>

definition initial :: "real \<Rightarrow> int \<Rightarrow> real \<Rightarrow> game" where
  "initial savedBalance savedClaim u =
     \<lparr>balance = rd savedBalance, wager = 50, mineIdx = randomMineIndex u,
      revealed = fresh_board, gameState = Idle, safeRevealed = 0,
      lastClaim = savedClaim\<rparr>"

definition currentMultiplier :: "game \<Rightarrow> real" where
  "currentMultiplier s = curvedMultiplier (safeRevealed s)"

definition potentialPayout :: "game \<Rightarrow> real" where
  "potentialPayout s = toFixed2 (rd (wager s * currentMultiplier s))"

subsection \<open>The handlers of a round\<close>

definition startGame :: "real \<Rightarrow> game \<Rightarrow> game" where
  "startGame u s =
     (let w = max 1 (min (wager s) (balance s)) in
      if w \<le> 0 then s
      else s\<lparr>wager := w,
              balance := toFixed2 (rd (balance s - w)),
              revealed := fresh_board,
              mineIdx := randomMineIndex u,
              safeRevealed := 0,
              gameState := Playing\<rparr>)"

definition revealTile :: "int \<Rightarrow> game \<Rightarrow> game" where
  "revealTile idx s =
     (if gameState s \<noteq> Playing then s
      else if arr_get (revealed s) idx then s
      else
        let newRevealed = arr_set_true (slice (revealed s)) idx;
            s1 = s\<lparr>revealed := newRevealed\<rparr>
        in if idx = mineIdx s then s1\<lparr>gameState := Busted\<rparr>
           else s1\<lparr>safeRevealed := safeRevealed s + 1\<rparr>)"

definition cashOut :: "game \<Rightarrow> game" where
  "cashOut s =
     (if gameState s \<noteq> Playing then s
      else
        let payout = potentialPayout s
        in s\<lparr>balance := toFixed2 (rd (balance s + payout)), gameState := Cashout\<rparr>)"

definition resetRound :: "real \<Rightarrow> game \<Rightarrow> game" where
  "resetRound u s =
     s\<lparr>revealed := fresh_board, mineIdx := randomMineIndex u,
       safeRevealed := 0, gameState := Idle\<rparr>"

text \<open>
  The wager input: \<^verbatim>\<open>onChange={(e) => setWager(Number(e.target.value))}\<close>, with the
  value of the typed decimal text as argument.
\<close>

definition setWager :: "real \<Rightarrow> game \<Rightarrow> game" where
  "setWager v s = s\<lparr>wager := rd v\<rparr>"

text \<open>
  The Start button carries \<^verbatim>\<open>onClick={startGame}\<close> and
  \<^verbatim>\<open>disabled={gameState === "playing" || balance <= 0}\<close>; a disabled button does not
  call its handler.
\<close>

definition startDisabled :: "game \<Rightarrow> bool" where
  "startDisabled s = (gameState s = Playing \<or> balance s \<le> 0)"

definition clickStart :: "real \<Rightarrow> game \<Rightarrow> game" where
  "clickStart u s = (if startDisabled s then s else startGame u s)"

subsection \<open>The claim system\<close>

text \<open>
  \<open>now\<close> is the \<^verbatim>\<open>Date.now()\<close> of the render, from which \<^verbatim>\<open>canClaim\<close> and
  \<^verbatim>\<open>timeLeft\<close> are computed; \<open>clicked\<close> is the \<^verbatim>\<open>Date.now()\<close> that
  \<^verbatim>\<open>claimPoints\<close> reads when it runs.
\<close>

definition timeSinceClaim :: "int \<Rightarrow> game \<Rightarrow> int" where
  "timeSinceClaim now s = now - lastClaim s"

definition canClaim :: "int \<Rightarrow> game \<Rightarrow> bool" where
  "canClaim now s = (timeSinceClaim now s \<ge> CLAIM_INTERVAL)"

definition timeLeft :: "int \<Rightarrow> game \<Rightarrow> int" where
  "timeLeft now s = CLAIM_INTERVAL - timeSinceClaim now s"


text \<open>The decimal digits of a natural number, as a template literal prints it.\<close>

fun show_nat :: "nat \<Rightarrow> string" where
  "show_nat n =
     (if n < 10 then [char_of (n + 48)]
      else show_nat (n div 10) @ [char_of (n mod 10 + 48)])"

text \<open>
  \<^verbatim>\<open>formatTime(ms)\<close>. Past the guard \<open>ms\<close> is positive, so that \<^verbatim>\<open>Math.floor\<close> of the
  quotient is \<open>div\<close> and JavaScript's \<^verbatim>\<open>%\<close> is \<open>mod\<close>. (The hours are printed in
  plain decimal digits, as JavaScript does below \<open>10\<^sup>2\<^sup>1\<close>.)
\<close>

definition formatTime :: "int \<Rightarrow> string" where
  "formatTime ms =
     (if ms \<le> 0 then ''Ready!''
      else
        let h = ms div (1000 * 60 * 60);
            m = (ms mod (1000 * 60 * 60)) div (1000 * 60)
        in show_nat (nat h) @ ''h '' @ show_nat (nat m) @ ''m'')"

subsection \<open>Notions used in the statements\<close>

text \<open>The double that stands for \<open>k\<close> hundredths: what \<^verbatim>\<open>Number("k/100")\<close> gives.\<close>

definition cents :: "int \<Rightarrow> real" where
  "cents k = rd (of_int k / 100)"

text \<open>The local \<^verbatim>\<open>t\<close> of \<^verbatim>\<open>curvedMultiplier\<close>.\<close>

definition progress :: "int \<Rightarrow> real" where
  "progress n = min (max (real_of_int n / real_of_int SAFE_TILES) 0) 1"

section \<open>Double precision\<close>

lemma rne_of_int [simp]: "rne (of_int n) = n"
  by (simp add: rne_def)

lemma rne_near: "\<bar>of_int (rne y) - y\<bar> \<le> 1 / 2"
proof -
  have "of_int \<lfloor>y\<rfloor> \<le> y" "y < of_int \<lfloor>y\<rfloor> + 1"
    by linarith+
  then show ?thesis
    unfolding rne_def Let_def by (auto simp: abs_le_iff)
qed

lemma rne_between: "\<lfloor>y\<rfloor> \<le> rne y \<and> rne y \<le> \<lfloor>y\<rfloor> + 1"
  by (simp add: rne_def Let_def)

lemma rne_mono: "a \<le> b \<Longrightarrow> rne a \<le> rne b"
proof -
  assume ab: "a \<le> b"
  then have fl: "\<lfloor>a\<rfloor> \<le> \<lfloor>b\<rfloor>" by (rule floor_mono)
  show ?thesis
  proof (cases "\<lfloor>a\<rfloor> = \<lfloor>b\<rfloor>")
    case True
    with ab show ?thesis
      unfolding rne_def Let_def by auto
  next
    case False
    with fl have "\<lfloor>a\<rfloor> + 1 \<le> \<lfloor>b\<rfloor>" by simp
    with rne_between [of a] rne_between [of b] show ?thesis by linarith
  qed
qed

lemma ulp_pos [simp]: "0 < ulp x"
  by (simp add: ulp_def)

lemma ulp_nonneg [simp]: "0 \<le> ulp x"
  by (simp add: ulp_def)

lemma ulp_top: "2 powi (expo x + 1) = 2 ^ 53 * ulp x"
proof -
  have "(2::real) powi ((expo x - 52) + 53) = 2 powi (expo x - 52) * 2 powi 53"
    by (rule power_int_add) simp
  moreover have "(expo x - 52) + 53 = expo x + 1" by simp
  ultimately have "(2::real) powi (expo x + 1) = 2 powi (expo x - 52) * 2 powi 53"
    by (simp only:)
  then show ?thesis by (simp add: ulp_def)
qed

lemma ulp_bottom: "2 powi (expo x) = 2 ^ 52 * ulp x"
proof -
  have "(2::real) powi ((expo x - 52) + 52) = 2 powi (expo x - 52) * 2 powi 52"
    by (rule power_int_add) simp
  moreover have "(expo x - 52) + 52 = expo x" by simp
  ultimately have "(2::real) powi (expo x) = 2 powi (expo x - 52) * 2 powi 52"
    by (simp only:)
  then show ?thesis by (simp add: ulp_def)
qed

lemma expo_upper: "x \<noteq> 0 \<Longrightarrow> \<bar>x\<bar> < 2 powi (expo x + 1)"
proof -
  assume "x \<noteq> 0"
  then have pos: "0 < \<bar>x\<bar>" by simp
  have "\<bar>x\<bar> < 2 powr (of_int \<lfloor>log 2 \<bar>x\<bar>\<rfloor> + 1)"
    using floor_log_eq_powr_iff [of "\<bar>x\<bar>" 2 "\<lfloor>log 2 \<bar>x\<bar>\<rfloor>"] pos by simp
  also have "\<dots> = 2 powi (\<lfloor>log 2 \<bar>x\<bar>\<rfloor> + 1)"
    using powr_real_of_int' [of 2 "\<lfloor>log 2 \<bar>x\<bar>\<rfloor> + 1"] by simp
  also have "\<dots> \<le> 2 powi (expo x + 1)"
    by (rule power_int_increasing) (simp_all add: expo_def)
  finally show ?thesis .
qed

lemma expo_lower: "x \<noteq> 0 \<Longrightarrow> - 1022 < expo x \<Longrightarrow> 2 powi (expo x) \<le> \<bar>x\<bar>"
proof -
  assume "x \<noteq> 0" and big: "- 1022 < expo x"
  then have pos: "0 < \<bar>x\<bar>" by simp
  from big have e: "expo x = \<lfloor>log 2 \<bar>x\<bar>\<rfloor>"
    by (simp add: expo_def max_def split: if_splits)
  have "2 powr (of_int \<lfloor>log 2 \<bar>x\<bar>\<rfloor>) \<le> \<bar>x\<bar>"
    using floor_log_eq_powr_iff [of "\<bar>x\<bar>" 2 "\<lfloor>log 2 \<bar>x\<bar>\<rfloor>"] pos by simp
  moreover have "2 powr (of_int \<lfloor>log 2 \<bar>x\<bar>\<rfloor>) = (2::real) powi \<lfloor>log 2 \<bar>x\<bar>\<rfloor>"
    using powr_real_of_int' [of 2 "\<lfloor>log 2 \<bar>x\<bar>\<rfloor>"] by simp
  ultimately show ?thesis using e by simp
qed

lemma expo_eqI:
  assumes "2 powi e \<le> \<bar>x\<bar>" and "\<bar>x\<bar> < 2 powi (e + 1)" and "- 1022 \<le> e"
  shows "expo x = e"
proof -
  have pos: "0 < \<bar>x\<bar>"
    using assms(1) zero_less_power_int [of "2::real" e] by linarith
  have "2 powr (of_int e) = (2::real) powi e" "2 powr (of_int e + 1) = (2::real) powi (e + 1)"
    using powr_real_of_int' [of 2 e] powr_real_of_int' [of 2 "e + 1"] by simp_all
  with assms have "\<lfloor>log 2 \<bar>x\<bar>\<rfloor> = e"
    using floor_log_eq_powr_iff [of "\<bar>x\<bar>" 2 e] pos by simp
  with assms(3) show ?thesis by (simp add: expo_def)
qed

lemma expo_mono: "\<bar>a\<bar> \<le> \<bar>b\<bar> \<Longrightarrow> a \<noteq> 0 \<Longrightarrow> expo a \<le> expo b"
proof -
  assume ab: "\<bar>a\<bar> \<le> \<bar>b\<bar>" and "a \<noteq> 0"
  then have "0 < \<bar>a\<bar>" by simp
  with ab have "log 2 \<bar>a\<bar> \<le> log 2 \<bar>b\<bar>" by simp
  then have "\<lfloor>log 2 \<bar>a\<bar>\<rfloor> \<le> \<lfloor>log 2 \<bar>b\<bar>\<rfloor>" by (rule floor_mono)
  then show ?thesis by (simp add: expo_def)
qed

lemma rd_error: "\<bar>rd x - x\<bar> \<le> ulp x / 2"
proof (cases "x = 0")
  case True
  then show ?thesis by (simp add: rd_def)
next
  case False
  define q where "q = ulp x"
  have q: "0 < q" by (simp add: q_def)
  define n where "n = real_of_int (rne (\<bar>x\<bar> / q))"
  have "\<bar>n - \<bar>x\<bar> / q\<bar> \<le> 1 / 2"
    unfolding n_def by (rule rne_near)
  then have "\<bar>n - \<bar>x\<bar> / q\<bar> * q \<le> 1 / 2 * q"
    using q by (intro mult_right_mono) simp_all
  then have "\<bar>(n - \<bar>x\<bar> / q) * q\<bar> \<le> q / 2"
    using q by (simp add: abs_mult)
  moreover have "(n - \<bar>x\<bar> / q) * q = n * q - \<bar>x\<bar>"
    using q by (simp add: left_diff_distrib)
  ultimately have near: "\<bar>n * q - \<bar>x\<bar>\<bar> \<le> q / 2"
    by (simp only:)
  have "rd x = sgn x * (n * q)"
    using False by (simp add: rd_def n_def q_def)
  moreover have sx: "sgn x * \<bar>x\<bar> = x"
    by (rule mult_sgn_abs)
  ultimately have "rd x - x = sgn x * (n * q) - sgn x * \<bar>x\<bar>"
    by (simp only:)
  then have "rd x - x = sgn x * (n * q - \<bar>x\<bar>)"
    by (simp only: right_diff_distrib)
  then have "\<bar>rd x - x\<bar> = \<bar>n * q - \<bar>x\<bar>\<bar>"
    using False by (simp add: abs_mult abs_sgn_eq)
  with near show ?thesis by (simp add: q_def)
qed

lemma ulp_bound: "x \<noteq> 0 \<Longrightarrow> ulp x \<le> \<bar>x\<bar> / 2 ^ 52 + 2 powi (- 1074)"
proof (cases "- 1022 < expo x")
  case True
  assume "x \<noteq> 0"
  with True have "2 powi (expo x) \<le> \<bar>x\<bar>" by (simp add: expo_lower)
  moreover have "ulp x = 2 powi (expo x) / 2 ^ 52"
    by (simp add: ulp_def power_int_diff)
  ultimately have "ulp x \<le> \<bar>x\<bar> / 2 ^ 52"
    by (simp add: divide_right_mono)
  moreover have "(0::real) \<le> 2 powi (- 1074)" by simp
  ultimately show ?thesis by linarith
next
  case False
  moreover have "- 1022 \<le> expo x" by (simp add: expo_def)
  ultimately have "expo x = - 1022" by simp
  then have "ulp x = 2 powi (- 1074)" by (simp add: ulp_def)
  then show ?thesis by simp
qed

lemma rd_rel_error: "\<bar>rd x - x\<bar> \<le> \<bar>x\<bar> / 2 ^ 53 + 2 powi (- 1075)"
proof (cases "x = 0")
  case True
  then show ?thesis by (simp add: rd_def)
next
  case False
  have "(2::real) powi (- 1075) = 2 powi (- 1074) / 2"
    using power_int_diff [of "2::real" "- 1074" 1] by simp
  with rd_error [of x] ulp_bound [OF False] show ?thesis by simp
qed

lemma rd_zero [simp]: "rd 0 = 0"
  by (simp add: rd_def)

lemma rd_minus: "rd (- x) = - rd x"
  by (simp add: rd_def ulp_def expo_def)

lemma rd_nonneg: "0 \<le> x \<Longrightarrow> 0 \<le> rd x"
proof -
  assume "0 \<le> x"
  have "0 \<le> \<bar>x\<bar> / ulp x" by (intro divide_nonneg_nonneg) simp_all
  then have "rne 0 \<le> rne (\<bar>x\<bar> / ulp x)" by (rule rne_mono)
  then have "0 \<le> rne (\<bar>x\<bar> / ulp x)" using rne_of_int [of 0] by simp
  with \<open>0 \<le> x\<close> show ?thesis by (simp add: rd_def sgn_if)
qed

lemma rd_pos_eq: "0 < x \<Longrightarrow> rd x = of_int (rne (x / ulp x)) * ulp x"
  by (simp add: rd_def)

lemma rd_le_top: "0 < x \<Longrightarrow> rd x \<le> 2 powi (expo x + 1)"
proof -
  assume x: "0 < x"
  then have "x < 2 powi (expo x + 1)" using expo_upper [of x] by simp
  also have "(2::real) powi (expo x + 1) = 2 ^ 53 * ulp x"
    by (rule ulp_top)
  finally have "x / ulp x \<le> real_of_int (2 ^ 53)"
    by (simp add: pos_divide_le_eq)
  then have "rne (x / ulp x) \<le> rne (real_of_int (2 ^ 53))" by (rule rne_mono)
  then have "rne (x / ulp x) \<le> 2 ^ 53" by (simp only: rne_of_int)
  then have "real_of_int (rne (x / ulp x)) \<le> real_of_int (2 ^ 53)"
    by (simp only: of_int_le_iff)
  then have "real_of_int (rne (x / ulp x)) * ulp x \<le> real_of_int (2 ^ 53) * ulp x"
    by (intro mult_right_mono) simp_all
  with x show ?thesis
    by (simp add: rd_pos_eq ulp_top)
qed

lemma rd_ge_bottom: "0 < x \<Longrightarrow> - 1022 < expo x \<Longrightarrow> 2 powi (expo x) \<le> rd x"
proof -
  assume x: "0 < x" and big: "- 1022 < expo x"
  then have "2 powi (expo x) \<le> x" using expo_lower [of x] by simp
  moreover have e: "(2::real) powi (expo x) = 2 ^ 52 * ulp x"
    by (rule ulp_bottom)
  ultimately have "real_of_int (2 ^ 52) \<le> x / ulp x"
    by (simp add: pos_le_divide_eq)
  then have "rne (real_of_int (2 ^ 52)) \<le> rne (x / ulp x)" by (rule rne_mono)
  then have "2 ^ 52 \<le> rne (x / ulp x)" by (simp only: rne_of_int)
  then have "real_of_int (2 ^ 52) \<le> real_of_int (rne (x / ulp x))"
    by (simp only: of_int_le_iff)
  then have "real_of_int (2 ^ 52) * ulp x \<le> real_of_int (rne (x / ulp x)) * ulp x"
    by (intro mult_right_mono) simp_all
  with x e show ?thesis by (simp add: rd_pos_eq)
qed

lemma rd_mono_pos:
  assumes "0 < a" and "a \<le> b"
  shows "rd a \<le> rd b"
proof -
  from assms have b: "0 < b" by simp
  have le: "expo a \<le> expo b"
    using assms by (intro expo_mono) simp_all
  show ?thesis
  proof (cases "expo a = expo b")
    case True
    then have u: "ulp a = ulp b" by (simp add: ulp_def)
    have "a / ulp b \<le> b / ulp b"
      using assms(2) by (intro divide_right_mono) simp_all
    then have "rne (a / ulp b) \<le> rne (b / ulp b)" by (rule rne_mono)
    then have "real_of_int (rne (a / ulp b)) * ulp b \<le> real_of_int (rne (b / ulp b)) * ulp b"
      by (intro mult_right_mono) simp_all
    with assms b u show ?thesis by (simp add: rd_pos_eq)
  next
    case False
    with le have lt: "expo a + 1 \<le> expo b" by simp
    moreover have "- 1022 \<le> expo a" by (simp add: expo_def)
    ultimately have big: "- 1022 < expo b" by simp
    have "rd a \<le> 2 powi (expo a + 1)" using assms(1) by (rule rd_le_top)
    also have "\<dots> \<le> 2 powi (expo b)"
      using lt by (intro power_int_increasing) simp_all
    also have "\<dots> \<le> rd b" using b big by (rule rd_ge_bottom)
    finally show ?thesis .
  qed
qed

lemma rd_mono: "a \<le> b \<Longrightarrow> rd a \<le> rd b"
proof -
  assume ab: "a \<le> b"
  consider "0 < a" | "a \<le> 0" "0 \<le> b" | "b < 0"
    by linarith
  then show ?thesis
  proof cases
    case 1
    then show ?thesis using ab by (rule rd_mono_pos)
  next
    case 2
    then have "0 \<le> rd b" "0 \<le> rd (- a)" by (simp_all add: rd_nonneg)
    then show ?thesis by (simp add: rd_minus)
  next
    case 3
    with ab have "0 < - b" "- b \<le> - a" by simp_all
    then have "rd (- b) \<le> rd (- a)" by (rule rd_mono_pos)
    then show ?thesis by (simp add: rd_minus)
  qed
qed

lemma rd_exact:
  assumes "x = of_int m * 2 powi k" and "\<bar>m\<bar> < 2 ^ 53" and "- 1074 \<le> k"
  shows "rd x = x"
proof (cases "x = 0")
  case True
  then show ?thesis by simp
next
  case False
  have ax: "\<bar>x\<bar> = of_int \<bar>m\<bar> * 2 powi k"
    by (simp add: assms(1) abs_mult)
  have "expo x - 52 \<le> k"
  proof (rule ccontr)
    assume "\<not> expo x - 52 \<le> k"
    then have gt: "k + 53 \<le> expo x" by simp
    with assms(3) have "- 1022 < expo x" by simp
    with False have "2 powi (expo x) \<le> \<bar>x\<bar>" by (simp add: expo_lower)
    moreover have "(2::real) powi (k + 53) \<le> 2 powi (expo x)"
      using gt by (intro power_int_increasing) simp_all
    moreover have "\<bar>x\<bar> < 2 ^ 53 * 2 powi k"
    proof -
      have "real_of_int \<bar>m\<bar> < real_of_int (2 ^ 53)"
        using assms(2) by (simp only: of_int_less_iff)
      then have "real_of_int \<bar>m\<bar> < 2 ^ 53" by simp
      then show ?thesis unfolding ax by (intro mult_strict_right_mono) simp_all
    qed
    moreover have "(2::real) powi (k + 53) = 2 ^ 53 * 2 powi k"
    proof -
      have "(2::real) powi (k + 53) = 2 powi k * 2 powi 53"
        by (rule power_int_add) simp
      then show ?thesis by simp
    qed
    ultimately show False by linarith
  qed
  then obtain d where d: "k = expo x - 52 + int d"
    by (metis zle_iff_zadd)
  have "(2::real) powi k = 2 powi (expo x - 52) * 2 ^ d"
    unfolding d using power_int_add [of "2::real" "expo x - 52" "int d"] by simp
  then have quot: "\<bar>x\<bar> / ulp x = of_int (\<bar>m\<bar> * 2 ^ d)"
    by (simp add: ax ulp_def)
  then have "rne (\<bar>x\<bar> / ulp x) = \<bar>m\<bar> * 2 ^ d"
    by (simp only: rne_of_int)
  then have "of_int (rne (\<bar>x\<bar> / ulp x)) * ulp x = \<bar>x\<bar> / ulp x * ulp x"
    by (simp only: quot)
  also have "\<dots> = \<bar>x\<bar>"
  proof -
    have "ulp x \<noteq> 0" using ulp_pos [of x] by linarith
    then show ?thesis by simp
  qed
  finally have "of_int (rne (\<bar>x\<bar> / ulp x)) * ulp x = \<bar>x\<bar>" .
  then have "rd x = sgn x * \<bar>x\<bar>"
    using False by (simp add: rd_def mult.assoc)
  then show ?thesis by (simp add: mult_sgn_abs)
qed

lemma rd_of_int: "\<bar>n\<bar> < 2 ^ 53 \<Longrightarrow> rd (of_int n) = of_int n"
  using rd_exact [of "of_int n" n 0] by simp

lemma rd_numeral [simp]:
  "(numeral n :: int) < 9007199254740992 \<Longrightarrow> rd (numeral n) = numeral n"
  using rd_of_int [of "numeral n"] by simp

lemma rd_neg_numeral [simp]:
  "(numeral n :: int) < 9007199254740992 \<Longrightarrow> rd (- numeral n) = - numeral n"
  by (simp add: rd_minus)

lemma rd_one [simp]: "rd 1 = 1"
  using rd_of_int [of 1] by simp

lemma rd_eval:
  assumes "2 powi e \<le> \<bar>x\<bar>" and "\<bar>x\<bar> < 2 powi (e + 1)" and "- 1022 \<le> e"
  shows "rd x = sgn x * of_int (rne (\<bar>x\<bar> / 2 powi (e - 52))) * 2 powi (e - 52)"
proof -
  have "expo x = e" using assms by (rule expo_eqI)
  moreover have "x \<noteq> 0"
  proof
    assume "x = 0"
    with assms(1) have "(2::real) powi e \<le> 0" by simp
    moreover have "0 < (2::real) powi e" by simp
    ultimately show False by linarith
  qed
  ultimately show ?thesis by (simp add: rd_def ulp_def)
qed

section \<open>Rounding to two decimals\<close>

lemma rd_minus_one: "rd (- 1) = - 1"
  by (simp add: rd_minus)

text \<open>Up to \<open>2\<^sup>3\<^sup>3\<close> a double is within a millionth of the value it stands for.\<close>

lemma rd_close: "\<bar>x\<bar> \<le> 8589934592 \<Longrightarrow> \<bar>rd x - x\<bar> \<le> 1 / 1000000"
proof -
  assume "\<bar>x\<bar> \<le> 8589934592"
  then have "\<bar>x\<bar> / 2 ^ 53 \<le> 8589934592 / 2 ^ 53"
    by (intro divide_right_mono) simp_all
  then have "\<bar>x\<bar> / 2 ^ 53 \<le> 1 / 1048576"
    by simp
  moreover have "(2::real) powi (- 1075) \<le> 1 / 1000000000"
    by (simp add: power_int_minus field_simps)
  ultimately show ?thesis
    using rd_rel_error [of x] by linarith
qed

lemma round2_nonneg: "0 \<le> x \<Longrightarrow> 0 \<le> round2 x"
  by (simp add: round2_def)

lemma round2_nonpos: "x < 0 \<Longrightarrow> round2 x \<le> 0"
proof -
  assume "x < 0"
  then have "0 \<le> \<lfloor>(- x) * 100 + 1 / 2\<rfloor>" by simp
  then have "0 \<le> real_of_int \<lfloor>(- x) * 100 + 1 / 2\<rfloor> / 100" by simp
  with \<open>x < 0\<close> show ?thesis unfolding round2_def by simp
qed

lemma round2_mono: "x \<le> y \<Longrightarrow> round2 x \<le> round2 y"
proof -
  assume xy: "x \<le> y"
  have up: "real_of_int \<lfloor>a * 100 + 1 / 2\<rfloor> / 100 \<le> real_of_int \<lfloor>b * 100 + 1 / 2\<rfloor> / 100"
    if "a \<le> b" for a b :: real
    using that by (intro divide_right_mono iffD2 [OF of_int_le_iff] floor_mono) simp_all
  consider "y < 0" | "x < 0" "0 \<le> y" | "0 \<le> x"
    by linarith
  then show ?thesis
  proof cases
    case 1
    with xy have "x < 0" "- y \<le> - x" by simp_all
    with 1 up [of "- y" "- x"] show ?thesis by (simp add: round2_def)
  next
    case 2
    with round2_nonpos [of x] round2_nonneg [of y] show ?thesis by linarith
  next
    case 3
    with xy have "0 \<le> y" by simp
    with 3 xy up [of x y] show ?thesis by (simp add: round2_def)
  qed
qed

lemma round2_hundredths: "\<exists>k. round2 x = real_of_int k / 100"
proof (cases "x < 0")
  case True
  then have "round2 x = real_of_int (- \<lfloor>(- x) * 100 + 1 / 2\<rfloor>) / 100"
    by (simp add: round2_def)
  then show ?thesis by blast
next
  case False
  then have "round2 x = real_of_int \<lfloor>x * 100 + 1 / 2\<rfloor> / 100"
    by (simp add: round2_def)
  then show ?thesis by blast
qed

lemma round2_near: "\<bar>round2 x - x\<bar> \<le> 1 / 200"
proof -
  have r: "\<bar>real_of_int \<lfloor>a * 100 + 1 / 2\<rfloor> / 100 - a\<bar> \<le> 1 / 200" for a :: real
  proof -
    define n where "n = real_of_int \<lfloor>a * 100 + 1 / 2\<rfloor>"
    have "n \<le> a * 100 + 1 / 2" "a * 100 + 1 / 2 < n + 1"
      unfolding n_def by linarith+
    then have "\<bar>n / 100 - a\<bar> \<le> 1 / 200"
      by linarith
    then show ?thesis by (simp only: n_def)
  qed
  show ?thesis
  proof (cases "x < 0")
    case True
    then have "round2 x - x = - (real_of_int \<lfloor>(- x) * 100 + 1 / 2\<rfloor> / 100 - (- x))"
      by (simp add: round2_def)
    with r [of "- x"] show ?thesis by (simp only: abs_minus)
  next
    case False
    with r [of x] show ?thesis by (simp add: round2_def)
  qed
qed

text \<open>A value less than half a hundredth away from \<open>K\<close> hundredths is printed as \<open>K\<close> hundredths.\<close>

lemma round2_unique:
  assumes "\<bar>y - real_of_int K / 100\<bar> < 1 / 200"
  shows "round2 y = real_of_int K / 100"
proof (cases "y < 0")
  case True
  from assms have "- real_of_int K \<le> (- y) * 100 + 1 / 2"
    and "(- y) * 100 + 1 / 2 < - real_of_int K + 1"
    by linarith+
  then have "real_of_int (- K) \<le> (- y) * 100 + 1 / 2"
    and "(- y) * 100 + 1 / 2 < real_of_int (- K) + 1"
    by simp_all
  then have "\<lfloor>(- y) * 100 + 1 / 2\<rfloor> = - K"
    by (intro floor_unique)
  with True show ?thesis by (simp add: round2_def)
next
  case False
  from assms have "real_of_int K \<le> y * 100 + 1 / 2"
    and "y * 100 + 1 / 2 < real_of_int K + 1"
    by linarith+
  then have "\<lfloor>y * 100 + 1 / 2\<rfloor> = K"
    by (intro floor_unique)
  with False show ?thesis by (simp add: round2_def)
qed

lemma toFixed2_mono: "x \<le> y \<Longrightarrow> toFixed2 x \<le> toFixed2 y"
  unfolding toFixed2_def by (intro rd_mono round2_mono)

lemma toFixed2_cents: "\<exists>k. toFixed2 x = cents k"
proof -
  obtain k where "round2 x = real_of_int k / 100"
    using round2_hundredths [of x] ..
  then have "toFixed2 x = cents k"
    by (simp only: toFixed2_def cents_def)
  then show ?thesis ..
qed

lemma cents_near:
  "\<bar>k\<bar> \<le> 10 ^ 11 \<Longrightarrow> \<bar>cents k - real_of_int k / 100\<bar> \<le> 1 / 1000000"
proof -
  assume "\<bar>k\<bar> \<le> 10 ^ 11"
  then have "real_of_int \<bar>k\<bar> \<le> real_of_int (10 ^ 11)"
    by (simp only: of_int_le_iff)
  then have "\<bar>real_of_int k / 100\<bar> \<le> 8589934592"
    by simp
  then show ?thesis unfolding cents_def by (rule rd_close)
qed

text \<open>
  Up to \<open>2\<^sup>3\<^sup>3\<close>, the double of a value that is within four thousandths of \<open>K\<close>
  hundredths is printed as \<open>K\<close> hundredths.
\<close>

lemma toFixed2_rd_cents:
  assumes "\<bar>x - real_of_int K / 100\<bar> \<le> 4 / 1000" and "\<bar>x\<bar> \<le> 8589934592"
  shows "toFixed2 (rd x) = cents K"
proof -
  have "\<bar>rd x - x\<bar> \<le> 1 / 1000000"
    using assms(2) by (rule rd_close)
  with assms(1) have "\<bar>rd x - real_of_int K / 100\<bar> < 1 / 200"
    by linarith
  then have "round2 (rd x) = real_of_int K / 100"
    by (rule round2_unique)
  then show ?thesis by (simp only: toFixed2_def cents_def)
qed

lemma toFixed2_rd_near:
  assumes "\<bar>x\<bar> \<le> 1000000000"
  shows "\<bar>toFixed2 (rd x) - x\<bar> \<le> 1 / 200 + 1 / 100000"
proof -
  have a: "\<bar>rd x - x\<bar> \<le> 1 / 1000000"
    using assms by (intro rd_close) linarith
  have b: "\<bar>round2 (rd x) - rd x\<bar> \<le> 1 / 200"
    by (rule round2_near)
  from assms a b have "\<bar>round2 (rd x)\<bar> \<le> 8589934592"
    by linarith
  then have "\<bar>rd (round2 (rd x)) - round2 (rd x)\<bar> \<le> 1 / 1000000"
    by (rule rd_close)
  with a b show ?thesis
    unfolding toFixed2_def by linarith
qed

section \<open>The payout curve\<close>

lemma curve_bounds:
  assumes "0 \<le> t" "t \<le> 1"
  shows "1.05 \<le> 1.05 + (MAX_MULT - 1.05) * (t powr 2.2)"
    and "1.05 + (MAX_MULT - 1.05) * (t powr 2.2) \<le> (20::real)"
proof -
  have p0: "0 \<le> t powr 2.2" by simp
  have p1: "t powr 2.2 \<le> 1"
    using assms by (simp add: powr_le1)
  show "1.05 \<le> 1.05 + (MAX_MULT - 1.05) * (t powr 2.2)"
    using p0 by (simp add: MAX_MULT_def)
  show "1.05 + (MAX_MULT - 1.05) * (t powr 2.2) \<le> (20::real)"
    using p1 by (simp add: MAX_MULT_def)
qed

lemma progress_range: "0 \<le> progress n" "progress n \<le> 1"
  by (simp_all add: progress_def)

lemma progress_mono: "a \<le> b \<Longrightarrow> progress a \<le> progress b"
  unfolding progress_def SAFE_TILES_def TOTAL_TILES_def SIZE_def
  by (auto simp: min_def max_def divide_right_mono)

lemma curvedMultiplier_nonzero:
  "n \<noteq> 0 \<Longrightarrow> curvedMultiplier n = toFixed2 (1.05 + (MAX_MULT - 1.05) * (progress n powr 2.2))"
  by (simp add: curvedMultiplier_def progress_def Let_def)

lemma curve_in_range: "1 \<le> curvedMultiplier n \<and> curvedMultiplier n \<le> MAX_MULT"
proof (cases "n = 0")
  case True
  then show ?thesis by (simp add: curvedMultiplier_def MAX_MULT_def)
next
  case False
  let ?m = "1.05 + (MAX_MULT - 1.05) * (progress n powr 2.2)"
  have "toFixed2 1 \<le> toFixed2 1.05"
    by (rule toFixed2_mono) simp
  also have "toFixed2 1.05 \<le> toFixed2 ?m"
    by (rule toFixed2_mono) (rule curve_bounds(1) [OF progress_range])
  finally have lo: "toFixed2 1 \<le> toFixed2 ?m" .
  have hi: "toFixed2 ?m \<le> toFixed2 20"
    by (rule toFixed2_mono) (rule curve_bounds(2) [OF progress_range])
  have "toFixed2 1 = 1" "toFixed2 20 = 20"
    by (simp_all add: toFixed2_def round2_def)
  with lo hi False show ?thesis
    by (simp add: curvedMultiplier_nonzero MAX_MULT_def)
qed

lemma curve_mono:
  assumes "0 \<le> a" "a \<le> b"
  shows "curvedMultiplier a \<le> curvedMultiplier b"
proof (cases "a = 0")
  case True
  then show ?thesis using curve_in_range [of b]
    by (simp add: curvedMultiplier_def)
next
  case False
  with assms have b: "b \<noteq> 0" by simp
  have "progress a powr 2.2 \<le> progress b powr 2.2"
    by (rule powr_mono2) (simp_all add: progress_range progress_mono assms)
  then have "1.05 + (MAX_MULT - 1.05) * (progress a powr 2.2)
      \<le> 1.05 + (MAX_MULT - 1.05) * (progress b powr 2.2)"
    by (simp add: MAX_MULT_def mult_left_mono)
  then show ?thesis
    using False b by (simp add: curvedMultiplier_nonzero toFixed2_mono)
qed

text \<open>
  Claim C3. \<^verbatim>\<open>curvedMultiplier(0)\<close> is exactly \<open>1.00\<close>; the value at every
  \<open>safeRevealed\<close> lies between \<open>1.00\<close> and \<^verbatim>\<open>MAX_MULT\<close> \<open>= 20.0\<close>, both
  included (at every integer, so in particular for \<open>0 \<le> safeRevealed \<le> SAFE_TILES\<close>);
  and \<^verbatim>\<open>curvedMultiplier(SAFE_TILES)\<close>, with \<^verbatim>\<open>SAFE_TILES\<close> \<open>= 24\<close>, is \<open>20.00\<close>
  after the rounding to two decimals.
\<close>

theorem curvedMultiplier_baseline_range_top:
  "curvedMultiplier 0 = 1
   \<and> 1 \<le> curvedMultiplier n \<and> curvedMultiplier n \<le> MAX_MULT
   \<and> MAX_MULT = 20 \<and> SAFE_TILES = 24
   \<and> curvedMultiplier SAFE_TILES = 20"
proof -
  have "curvedMultiplier 0 = 1"
    by (simp add: curvedMultiplier_def)
  moreover have "curvedMultiplier SAFE_TILES = 20"
    by (simp add: curvedMultiplier_def SAFE_TILES_def TOTAL_TILES_def SIZE_def
        MAX_MULT_def toFixed2_def round2_def)
  moreover have "MAX_MULT = 20" "SAFE_TILES = 24"
    by (simp_all add: MAX_MULT_def SAFE_TILES_def TOTAL_TILES_def SIZE_def)
  ultimately show ?thesis
    using curve_in_range [of n] by simp
qed

text \<open>
  Claim C4. \<^verbatim>\<open>curvedMultiplier\<close> is monotonically non-decreasing, the rounding to two
  decimals included: for integers \<open>0 \<le> a \<le> b\<close> (so in particular for
  \<open>0 \<le> a \<le> b \<le> SAFE_TILES\<close>) the value at \<open>a\<close> is at most the value at \<open>b\<close>.
\<close>

theorem curvedMultiplier_monotone:
  assumes "0 \<le> a" and "a \<le> b" and "b \<le> SAFE_TILES"
  shows "curvedMultiplier a \<le> curvedMultiplier b"
  using assms(1,2) by (rule curve_mono)

theorem curvedMultiplier_monotone_witness:
  "(0::int) \<le> 3 \<and> (3::int) \<le> 7 \<and> 7 \<le> SAFE_TILES
   \<and> curvedMultiplier 3 \<le> curvedMultiplier 7"
  using curvedMultiplier_monotone [of 3 7]
  by (simp add: SAFE_TILES_def TOTAL_TILES_def SIZE_def)

section \<open>Starting a round\<close>

text \<open>
  The committed wager is at least \<open>1\<close> whatever the balance is, so the guard
  \<^verbatim>\<open>if (w <= 0) return\<close> of \<^verbatim>\<open>startGame\<close> is never taken: the handler always starts
  a round.
\<close>

lemma startGame_eq:
  "startGame u s =
     s\<lparr>wager := max 1 (min (wager s) (balance s)),
       balance := toFixed2 (rd (balance s - max 1 (min (wager s) (balance s)))),
       revealed := fresh_board,
       mineIdx := randomMineIndex u,
       safeRevealed := 0,
       gameState := Playing\<rparr>"
proof -
  have "\<not> max 1 (min (wager s) (balance s)) \<le> 0"
    by simp
  then show ?thesis
    unfolding startGame_def Let_def by (rule if_not_P)
qed

lemma randomMineIndex_range:
  assumes "0 \<le> u" and "u < 1"
  shows "0 \<le> randomMineIndex u \<and> randomMineIndex u < TOTAL_TILES"
  using assms by (simp add: randomMineIndex_def TOTAL_TILES_def SIZE_def floor_less_iff)

lemmas eval_defs = startGame_eq initial_def toFixed2_def round2_def rd_minus_one
  randomMineIndex_def TOTAL_TILES_def SIZE_def fresh_board_def arr_get_def arr_set_true_def
  slice_def is_array_index_def revealTile_def cashOut_def clickStart_def startDisabled_def
  setWager_def Let_def

text \<open>
  Claim C1 says that with a balance \<open>\<le> 0\<close> starting a round fails: no transition to
  \<open>Playing\<close>, no deduction, no reset. The handler does otherwise. From the state of a
  first render with a stored balance of \<open>0\<close> (wager \<open>50\<close>, state \<open>Idle\<close>),
  \<^verbatim>\<open>startGame\<close> commits the wager \<open>max 1 (min 50 0) = 1\<close>, takes it from the balance,
  which becomes \<open>-1\<close>, and moves to \<open>Playing\<close>.
\<close>

theorem startGame_without_funds_starts_round:
  "balance (initial 0 0 (1 / 2)) = 0
   \<and> gameState (initial 0 0 (1 / 2)) = Idle
   \<and> wager (startGame (1 / 2) (initial 0 0 (1 / 2))) = 1
   \<and> balance (startGame (1 / 2) (initial 0 0 (1 / 2))) = - 1
   \<and> gameState (startGame (1 / 2) (initial 0 0 (1 / 2))) = Playing"
  by (simp add: startGame_eq initial_def toFixed2_def round2_def rd_minus_one)

text \<open>
  Claim C2, as stated, says that the committed wager \<open>w\<close> of every started round is
  between \<open>0\<close> and the balance before the start, and that the balance afterwards is that
  balance minus \<open>w\<close> exactly. It fails twice. With a balance of \<open>1000\<close> and a typed
  wager of \<open>1.001\<close> the committed wager is the double of \<open>1.001\<close> and the new balance
  is the rounded \<open>999\<close>, not the difference. With a stored balance of \<open>0.12\<close> the
  committed wager is \<open>1\<close>, more than the balance.
\<close>

theorem startGame_exact_deduction_counterexample:
  "wager (startGame (1 / 2) (setWager 1.001 (initial 1000 0 (1 / 2)))) = rd 1.001
   \<and> balance (startGame (1 / 2) (setWager 1.001 (initial 1000 0 (1 / 2)))) = 999
   \<and> balance (startGame (1 / 2) (setWager 1.001 (initial 1000 0 (1 / 2))))
       \<noteq> balance (setWager 1.001 (initial 1000 0 (1 / 2)))
          - wager (startGame (1 / 2) (setWager 1.001 (initial 1000 0 (1 / 2))))
   \<and> wager (startGame (1 / 2) (initial 0.12 0 (1 / 2))) = 1
   \<and> \<not> wager (startGame (1 / 2) (initial 0.12 0 (1 / 2))) \<le> balance (initial 0.12 0 (1 / 2))"
proof -
  define w where "w = rd 1.001"
  define s where "s = setWager 1.001 (initial 1000 0 (1 / 2))"
  have "\<bar>w - 1.001\<bar> \<le> 1 / 1000000"
    unfolding w_def by (rule rd_close) simp
  then have near: "\<bar>w - 1001 / 1000\<bar> \<le> 1 / 1000000"
    by simp
  then have lo: "1001 / 1000 - 1 / 1000000 \<le> w" and hi: "w \<le> 1001 / 1000 + 1 / 1000000"
    by linarith+
  have s: "wager s = w" "balance s = 1000"
    by (simp_all add: s_def w_def setWager_def initial_def)
  have "1 \<le> w" "w \<le> 1000"
    using lo hi by linarith+
  then have clamp: "max 1 (min w 1000) = w"
    by simp
  have w': "wager (startGame (1 / 2) s) = w"
    by (simp add: startGame_eq s clamp)
  have "toFixed2 (rd (1000 - w)) = cents 99900"
  proof (rule toFixed2_rd_cents)
    show "\<bar>1000 - w - real_of_int 99900 / 100\<bar> \<le> 4 / 1000"
      using lo hi by simp
    show "\<bar>1000 - w\<bar> \<le> 8589934592"
      using lo hi by linarith
  qed
  moreover have "cents 99900 = 999"
    by (simp add: cents_def)
  ultimately have b': "balance (startGame (1 / 2) s) = 999"
    by (simp add: startGame_eq s clamp)
  have "(999::real) \<noteq> 1000 - w"
    using lo by linarith
  then have ne: "balance (startGame (1 / 2) s) \<noteq> balance s - wager (startGame (1 / 2) s)"
    by (simp add: b' w' s)
  define t where "t = initial 0.12 0 (1 / 2)"
  define b where "b = rd 0.12"
  have "\<bar>b - 0.12\<bar> \<le> 1 / 1000000"
    unfolding b_def by (rule rd_close) simp
  then have "\<bar>b - 12 / 100\<bar> \<le> 1 / 1000000"
    by simp
  then have small: "b \<le> 1 / 2"
    by linarith
  have t: "balance t = b" "wager t = 50"
    by (simp_all add: t_def b_def initial_def)
  have "max 1 (min 50 b) = 1"
    using small by simp
  then have tw: "wager (startGame (1 / 2) t) = 1"
    by (simp add: startGame_eq t)
  have "\<not> 1 \<le> b"
    using small by linarith
  with tw t have "\<not> wager (startGame (1 / 2) t) \<le> balance t"
    by simp
  with w' b' ne tw show ?thesis
    unfolding s_def t_def w_def by blast
qed

text \<open>
  Claim C2, amended. For every start from a balance of at least \<open>1\<close>, the committed wager
  is \<open>w = max 1 (min requested balance)\<close>, it satisfies \<open>1 \<le> w \<le> balance\<close>, the round
  is then in state \<open>Playing\<close>, and the balance afterwards is
  \<^verbatim>\<open>Number((balance - w).toFixed(2))\<close>: the difference in double precision, rounded to
  two decimals. For balances up to \<open>10\<^sup>9\<close> that is within \<open>0.00501\<close> of the difference;
  and when the balance stands for \<open>kb\<close> hundredths and the wager for \<open>kw\<close> hundredths
  (each to within a millionth, as the doubles of such amounts are), the balance afterwards
  is the double of \<open>kb - kw\<close> hundredths: no hundredth is lost or gained.
\<close>

theorem startGame_wager_and_balance:
  assumes "1 \<le> balance s"
  shows "wager (startGame u s) = max 1 (min (wager s) (balance s))
     \<and> 1 \<le> wager (startGame u s) \<and> wager (startGame u s) \<le> balance s
     \<and> balance (startGame u s) = toFixed2 (rd (balance s - wager (startGame u s)))
     \<and> gameState (startGame u s) = Playing
     \<and> (balance s \<le> 10 ^ 9
          \<longrightarrow> \<bar>balance (startGame u s) - (balance s - wager (startGame u s))\<bar>
                \<le> 1 / 200 + 1 / 10 ^ 5)
     \<and> (balance s \<le> 10 ^ 9
          \<and> \<bar>balance s - real_of_int kb / 100\<bar> \<le> 1 / 10 ^ 6
          \<and> \<bar>wager (startGame u s) - real_of_int kw / 100\<bar> \<le> 1 / 10 ^ 6
          \<longrightarrow> balance (startGame u s) = cents (kb - kw))"
proof -
  define w where "w = max 1 (min (wager s) (balance s))"
  have w: "wager (startGame u s) = w"
    and b: "balance (startGame u s) = toFixed2 (rd (balance s - w))"
    and g: "gameState (startGame u s) = Playing"
    by (simp_all add: startGame_eq w_def)
  have range: "1 \<le> w" "w \<le> balance s"
    using assms by (simp_all add: w_def)
  have near: "\<bar>toFixed2 (rd (balance s - w)) - (balance s - w)\<bar> \<le> 1 / 200 + 1 / 10 ^ 5"
    if "balance s \<le> 10 ^ 9"
  proof -
    from that range have "\<bar>balance s - w\<bar> \<le> 1000000000" by simp
    then show ?thesis using toFixed2_rd_near [of "balance s - w"] by simp
  qed
  have exact: "toFixed2 (rd (balance s - w)) = cents (kb - kw)"
    if "balance s \<le> 10 ^ 9" "\<bar>balance s - real_of_int kb / 100\<bar> \<le> 1 / 10 ^ 6"
      "\<bar>w - real_of_int kw / 100\<bar> \<le> 1 / 10 ^ 6"
  proof (rule toFixed2_rd_cents)
    from that(2,3) have "\<bar>balance s - real_of_int kb / 100\<bar> \<le> 1 / 1000000"
      "\<bar>w - real_of_int kw / 100\<bar> \<le> 1 / 1000000" by simp_all
    moreover have "real_of_int (kb - kw) / 100 = real_of_int kb / 100 - real_of_int kw / 100"
      by (simp add: diff_divide_distrib)
    ultimately show "\<bar>balance s - w - real_of_int (kb - kw) / 100\<bar> \<le> 4 / 1000"
      by linarith
    from that(1) range show "\<bar>balance s - w\<bar> \<le> 8589934592" by simp
  qed
  have "w = max 1 (min (wager s) (balance s))"
    by (rule w_def)
  with w b g range near exact show ?thesis by simp
qed

theorem startGame_wager_and_balance_witness:
  "1 \<le> balance (initial 1000 0 (1 / 2))
   \<and> balance (initial 1000 0 (1 / 2)) \<le> 10 ^ 9
   \<and> \<bar>balance (initial 1000 0 (1 / 2)) - real_of_int 100000 / 100\<bar> \<le> 1 / 10 ^ 6
   \<and> wager (startGame (1 / 2) (initial 1000 0 (1 / 2))) = 50
   \<and> \<bar>wager (startGame (1 / 2) (initial 1000 0 (1 / 2))) - real_of_int 5000 / 100\<bar> \<le> 1 / 10 ^ 6
   \<and> balance (startGame (1 / 2) (initial 1000 0 (1 / 2))) = 950
   \<and> gameState (startGame (1 / 2) (initial 1000 0 (1 / 2))) = Playing"
proof -
  have b: "balance (initial 1000 0 (1 / 2)) = 1000" and w: "wager (initial 1000 0 (1 / 2)) = 50"
    by (simp_all add: initial_def)
  have c: "cents (100000 - 5000) = 950"
    by (simp add: cents_def)
  show ?thesis
    using startGame_wager_and_balance [of "initial 1000 0 (1 / 2)" "1 / 2" 100000 5000] b w c
    by (simp add: toFixed2_def round2_def)
qed

section \<open>Revealing tiles\<close>

lemma arr_get_set: "arr_get (arr_set_true a i) i"
  by (simp add: arr_get_def arr_set_true_def nth_append)

lemma revealTile_twice: "revealTile idx (revealTile idx s) = revealTile idx s"
proof (cases "gameState s = Playing \<and> \<not> arr_get (revealed s) idx")
  case False
  then show ?thesis by (auto simp: revealTile_def)
next
  case True
  then have "arr_get (revealed (revealTile idx s)) idx"
    by (simp add: revealTile_def Let_def arr_get_set)
  then show ?thesis
    by (simp add: revealTile_def [of idx "revealTile idx s"])
qed

text \<open>
  Claim C5. In every state with \<open>gameState = Playing\<close> whose hazard tile is not yet
  revealed, revealing the hazard tile moves the round to \<open>Busted\<close>, leaves
  \<open>safeRevealed\<close> as it was and leaves the balance as it was.
\<close>

theorem revealTile_hazard_busts:
  assumes "gameState s = Playing" and "\<not> arr_get (revealed s) (mineIdx s)"
  shows "gameState (revealTile (mineIdx s) s) = Busted
    \<and> safeRevealed (revealTile (mineIdx s) s) = safeRevealed s
    \<and> balance (revealTile (mineIdx s) s) = balance s"
  using assms by (simp add: revealTile_def Let_def)

theorem revealTile_hazard_busts_witness:
  "gameState (startGame (1 / 2) (initial 1000 0 (1 / 4))) = Playing
   \<and> mineIdx (startGame (1 / 2) (initial 1000 0 (1 / 4))) = 12
   \<and> \<not> arr_get (revealed (startGame (1 / 2) (initial 1000 0 (1 / 4)))) 12
   \<and> gameState (revealTile 12 (startGame (1 / 2) (initial 1000 0 (1 / 4)))) = Busted
   \<and> safeRevealed (revealTile 12 (startGame (1 / 2) (initial 1000 0 (1 / 4)))) = 0
   \<and> balance (revealTile 12 (startGame (1 / 2) (initial 1000 0 (1 / 4)))) = 950"
  using revealTile_hazard_busts [of "startGame (1 / 2) (initial 1000 0 (1 / 4))"]
  by (simp add: startGame_eq initial_def toFixed2_def round2_def randomMineIndex_def
      TOTAL_TILES_def SIZE_def fresh_board_def arr_get_def is_array_index_def)

section \<open>Cashing out\<close>

lemma cashOut_playing:
  "gameState s = Playing \<Longrightarrow>
     cashOut s = s\<lparr>balance := toFixed2 (rd (balance s + potentialPayout s)),
                   gameState := Cashout\<rparr>"
  by (simp add: cashOut_def Let_def)

text \<open>
  The multiplier after seven safe tiles: \<open>(7/24)\<^sup>2\<^sup>.\<^sup>2\<close> lies between \<open>0.0663\<close> and
  \<open>0.0667\<close>, as the fifth powers show, so that the curve value rounds to \<open>2.31\<close>.
\<close>

lemma powr_22_between:
  fixes x lo hi :: real
  assumes "0 < x" and "0 \<le> lo" and "lo ^ 5 \<le> x ^ 11" and "x ^ 11 \<le> hi ^ 5" and "0 \<le> hi"
  shows "lo \<le> x powr 2.2 \<and> x powr 2.2 \<le> hi"
proof -
  define p where "p = x powr 2.2"
  have p0: "0 \<le> p" by (simp add: p_def)
  have "p ^ 5 = (x powr 2.2) powr 5"
    using p0 by (simp add: p_def)
  also have "\<dots> = x powr 11"
    by (simp add: powr_powr)
  also have "\<dots> = x ^ 11"
    using assms(1) by simp
  finally have p5: "p ^ 5 = x ^ 11" .
  have "lo \<le> p"
    using assms(3) p0 unfolding p5 [symmetric] by (rule power_le_imp_le_base [of lo 4 p, simplified])
  moreover have "p \<le> hi"
    using assms(4,5) unfolding p5 [symmetric] by (rule power_le_imp_le_base [of p 4 hi, simplified])
  ultimately show ?thesis by (simp add: p_def)
qed

lemma curvedMultiplier_7: "curvedMultiplier 7 = cents 231"
proof -
  define p where "p = (7 / 24 :: real) powr 2.2"
  have "663 / 10000 \<le> p \<and> p \<le> 667 / 10000"
    unfolding p_def by (rule powr_22_between) (simp_all add: power_divide)
  then have lo: "663 / 10000 \<le> p" and hi: "p \<le> 667 / 10000"
    by blast+
  have "\<bar>105 / 100 + 379 / 20 * p - 231 / 100\<bar> < 1 / 200"
    using lo hi by linarith
  then have "\<bar>(105 / 100 + (20 - 105 / 100) * p) - real_of_int 231 / 100\<bar> < 1 / 200"
    by simp
  then have "round2 (105 / 100 + (20 - 105 / 100) * p) = real_of_int 231 / 100"
    by (rule round2_unique)
  then have r: "toFixed2 (105 / 100 + (20 - 105 / 100) * p) = cents 231"
    by (simp only: toFixed2_def cents_def)
  have "curvedMultiplier 7 = toFixed2 (105 / 100 + (20 - 105 / 100) * p)"
    by (simp add: curvedMultiplier_def SAFE_TILES_def TOTAL_TILES_def SIZE_def MAX_MULT_def
        p_def)
  with r show ?thesis by simp
qed

text \<open>The doubles that the two examples below go through.\<close>

lemma rd_values:
  "rd (9 / 2) = 9 / 2"
  "rd (1991 / 2) = 1991 / 2"
  "rd (231 / 100) = 5201657569612923 / 2251799813685248"
  "rd (46814918126516307 / 4503599627370496) = 2925932382907269 / 281474976710656"
  "rd (1039 / 100) = 731131252005929 / 70368744177664"
  "rd (70783216080870441 / 70368744177664) = 8847902010108805 / 8796093022208"
  "rd (100589 / 100) = 8847902010108805 / 8796093022208"
  "rd 100000000000000048 = 100000000000000048"
  "rd 100000000000000000 = 100000000000000000"
  "rd 99999999999999998 = 100000000000000000"
  "rd 100000000000000050 = 100000000000000048"
proof -
  show "rd (9 / 2) = 9 / 2"
    by (rule rd_exact [of _ 9 "- 1"]) simp_all
  show "rd (1991 / 2) = 1991 / 2"
    by (rule rd_exact [of _ 1991 "- 1"]) simp_all
  show "rd (231 / 100) = 5201657569612923 / 2251799813685248"
    by (subst rd_eval [of 1]) (simp_all add: rne_def)
  show "rd (46814918126516307 / 4503599627370496) = 2925932382907269 / 281474976710656"
    by (subst rd_eval [of 3]) (simp_all add: rne_def)
  show "rd (1039 / 100) = 731131252005929 / 70368744177664"
    by (subst rd_eval [of 3]) (simp_all add: rne_def)
  show "rd (70783216080870441 / 70368744177664) = 8847902010108805 / 8796093022208"
    by (subst rd_eval [of 9]) (simp_all add: rne_def)
  show "rd (100589 / 100) = 8847902010108805 / 8796093022208"
    by (subst rd_eval [of 9]) (simp_all add: rne_def)
  show "rd 100000000000000048 = 100000000000000048"
    by (rule rd_exact [of _ 6250000000000003 4]) simp_all
  show "rd 100000000000000000 = 100000000000000000"
    by (rule rd_exact [of _ 6250000000000000 4]) simp_all
  show "rd 99999999999999998 = 100000000000000000"
    by (subst rd_eval [of 56]) (simp_all add: rne_def)
  show "rd 100000000000000050 = 100000000000000048"
    by (subst rd_eval [of 56]) (simp_all add: rne_def)
qed

text \<open>
  Claim C6, as stated, says that in every \<open>Playing\<close> state \<^verbatim>\<open>cashOut\<close> credits the
  balance by exactly the payout, the product of wager and multiplier rounded to two
  decimals. It fails in two ways, both from the double arithmetic under the rounding.
  After a start with the typed wager \<open>4.5\<close> from a balance of \<open>1000\<close> and seven safe
  reveals (multiplier \<open>2.31\<close>), the product of wager and multiplier rounds to \<open>10.40\<close>,
  but its double lies below \<open>10.395\<close> and the payout is \<open>10.39\<close>; the balance goes from
  \<open>995.5\<close> to \<open>1005.89\<close>. And after a start with wager \<open>50\<close> that leaves a balance of
  \<open>10\<^sup>1\<^sup>7\<close>, the payout is \<open>50\<close> but the balance grows by \<open>48\<close>: doubles of that size are
  \<open>16\<close> apart.
\<close>

theorem cashOut_exact_credit_counterexample:
  "gameState (fold revealTile [0, 1, 2, 3, 4, 5, 6]
      (startGame (1 / 2) (setWager 4.5 (initial 1000 0 (1 / 2))))) = Playing
   \<and> wager (fold revealTile [0, 1, 2, 3, 4, 5, 6]
      (startGame (1 / 2) (setWager 4.5 (initial 1000 0 (1 / 2))))) = 4.5
   \<and> balance (fold revealTile [0, 1, 2, 3, 4, 5, 6]
      (startGame (1 / 2) (setWager 4.5 (initial 1000 0 (1 / 2))))) = 995.5
   \<and> curvedMultiplier (safeRevealed (fold revealTile [0, 1, 2, 3, 4, 5, 6]
      (startGame (1 / 2) (setWager 4.5 (initial 1000 0 (1 / 2)))))) = cents 231
   \<and> round2 (4.5 * cents 231) = 10.40
   \<and> potentialPayout (fold revealTile [0, 1, 2, 3, 4, 5, 6]
      (startGame (1 / 2) (setWager 4.5 (initial 1000 0 (1 / 2))))) = cents 1039
   \<and> balance (cashOut (fold revealTile [0, 1, 2, 3, 4, 5, 6]
      (startGame (1 / 2) (setWager 4.5 (initial 1000 0 (1 / 2)))))) = cents 100589
   \<and> gameState (startGame (1 / 2) (initial 100000000000000048 0 (1 / 2))) = Playing
   \<and> balance (startGame (1 / 2) (initial 100000000000000048 0 (1 / 2))) = 100000000000000000
   \<and> potentialPayout (startGame (1 / 2) (initial 100000000000000048 0 (1 / 2))) = 50
   \<and> balance (cashOut (startGame (1 / 2) (initial 100000000000000048 0 (1 / 2))))
       = 100000000000000048
   \<and> balance (cashOut (startGame (1 / 2) (initial 100000000000000048 0 (1 / 2))))
       \<noteq> balance (startGame (1 / 2) (initial 100000000000000048 0 (1 / 2)))
          + potentialPayout (startGame (1 / 2) (initial 100000000000000048 0 (1 / 2)))"
proof -
  define t where "t = fold revealTile [0, 1, 2, 3, 4, 5, 6]
      (startGame (1 / 2) (setWager 4.5 (initial 1000 0 (1 / 2))))"
  have tg: "gameState t = Playing" and tw: "wager t = 9 / 2" and tb: "balance t = 1991 / 2"
    and tn: "safeRevealed t = 7"
    by (simp_all add: t_def eval_defs rd_values)
  have c: "cents 231 = 5201657569612923 / 2251799813685248"
    by (simp add: cents_def rd_values)
  have tp: "potentialPayout t = cents 1039"
    by (simp add: potentialPayout_def currentMultiplier_def tw tn curvedMultiplier_7 c
        rd_values toFixed2_def round2_def cents_def)
  have tr: "round2 (4.5 * cents 231) = 10.40"
    by (simp add: c round2_def)
  have tc: "balance (cashOut t) = cents 100589"
    by (simp add: cashOut_playing [OF tg] tb tp cents_def rd_values toFixed2_def round2_def)
  define s where "s = startGame (1 / 2) (initial 100000000000000048 0 (1 / 2))"
  have g: "gameState s = Playing" and w: "wager s = 50" and n: "safeRevealed s = 0"
    by (simp_all add: s_def startGame_eq initial_def rd_values)
  have b: "balance s = 100000000000000000"
    by (simp add: s_def startGame_eq initial_def rd_values toFixed2_def round2_def)
  have p: "potentialPayout s = 50"
    by (simp add: potentialPayout_def currentMultiplier_def curvedMultiplier_def w n
        toFixed2_def round2_def)
  have o: "balance (cashOut s) = 100000000000000048"
    by (simp add: cashOut_playing [OF g] b p rd_values toFixed2_def round2_def)
  from tg tw tb tn tp tr tc g b p o show ?thesis
    unfolding s_def t_def by (simp add: curvedMultiplier_7)
qed

text \<open>
  Claim C6, amended. The payout is
  \<^verbatim>\<open>Number((wager * curvedMultiplier(safeRevealed)).toFixed(2))\<close> with the product in
  double precision: the double of a whole number of hundredths, and for wagers up to
  \<open>10\<^sup>7\<close> within \<open>0.00501\<close> of the product. In every state with \<open>gameState = Playing\<close>,
  \<^verbatim>\<open>cashOut\<close> sets the balance to \<^verbatim>\<open>Number((balance + payout).toFixed(2))\<close>, the sum in
  double precision, and the state to \<open>Cashout\<close>, and changes nothing else. When the
  balance stands for \<open>kb\<close> hundredths (to within a millionth) and the payout is the double
  of \<open>kp\<close> hundredths, both up to \<open>10\<^sup>1\<^sup>1\<close> in size, the new balance is the double of
  \<open>kb + kp\<close> hundredths: the credit is exact in hundredths. In any other state
  \<^verbatim>\<open>cashOut\<close> changes nothing.
\<close>

theorem cashOut_credits_payout:
  "potentialPayout s = toFixed2 (rd (wager s * curvedMultiplier (safeRevealed s)))
   \<and> (\<exists>k. potentialPayout s = cents k)
   \<and> (\<bar>wager s\<bar> \<le> 10 ^ 7 \<longrightarrow>
        \<bar>potentialPayout s - wager s * curvedMultiplier (safeRevealed s)\<bar>
          \<le> 1 / 200 + 1 / 10 ^ 5)
   \<and> (gameState s \<noteq> Playing \<longrightarrow> cashOut s = s)
   \<and> (gameState s = Playing \<longrightarrow>
        cashOut s = s\<lparr>balance := toFixed2 (rd (balance s + potentialPayout s)),
                      gameState := Cashout\<rparr>)
   \<and> (gameState s = Playing
        \<and> \<bar>balance s - real_of_int kb / 100\<bar> \<le> 1 / 10 ^ 6 \<and> \<bar>kb\<bar> \<le> 10 ^ 11
        \<and> potentialPayout s = cents kp \<and> \<bar>kp\<bar> \<le> 10 ^ 11
        \<longrightarrow> cashOut s = s\<lparr>balance := cents (kb + kp), gameState := Cashout\<rparr>)"
proof -
  have payout: "potentialPayout s = toFixed2 (rd (wager s * curvedMultiplier (safeRevealed s)))"
    by (simp add: potentialPayout_def currentMultiplier_def)
  have whole: "\<exists>k. potentialPayout s = cents k"
    unfolding potentialPayout_def by (rule toFixed2_cents)
  have near: "\<bar>potentialPayout s - wager s * curvedMultiplier (safeRevealed s)\<bar>
      \<le> 1 / 200 + 1 / 10 ^ 5" if "\<bar>wager s\<bar> \<le> 10 ^ 7"
  proof -
    have c: "\<bar>curvedMultiplier (safeRevealed s)\<bar> \<le> 20"
      using curve_in_range [of "safeRevealed s"] by (simp add: MAX_MULT_def)
    have "\<bar>wager s * curvedMultiplier (safeRevealed s)\<bar>
        = \<bar>wager s\<bar> * \<bar>curvedMultiplier (safeRevealed s)\<bar>"
      by (rule abs_mult)
    also have "\<dots> \<le> 10 ^ 7 * 20"
      using that c by (intro mult_mono) simp_all
    finally have "\<bar>wager s * curvedMultiplier (safeRevealed s)\<bar> \<le> 1000000000"
      by simp
    then show ?thesis
      using toFixed2_rd_near [of "wager s * curvedMultiplier (safeRevealed s)"]
      by (simp add: payout)
  qed
  have idle: "cashOut s = s" if "gameState s \<noteq> Playing"
    using that by (simp add: cashOut_def)
  have exact: "cashOut s = s\<lparr>balance := cents (kb + kp), gameState := Cashout\<rparr>"
    if g: "gameState s = Playing"
      and b: "\<bar>balance s - real_of_int kb / 100\<bar> \<le> 1 / 10 ^ 6" and kb: "\<bar>kb\<bar> \<le> 10 ^ 11"
      and p: "potentialPayout s = cents kp" and kp: "\<bar>kp\<bar> \<le> 10 ^ 11"
  proof -
    have b': "\<bar>balance s - real_of_int kb / 100\<bar> \<le> 1 / 1000000"
      using b by simp
    have p': "\<bar>cents kp - real_of_int kp / 100\<bar> \<le> 1 / 1000000"
      using kp by (rule cents_near)
    have "real_of_int \<bar>kb\<bar> \<le> real_of_int (10 ^ 11)" "real_of_int \<bar>kp\<bar> \<le> real_of_int (10 ^ 11)"
      using kb kp by (simp_all only: of_int_le_iff)
    then have size: "\<bar>real_of_int kb / 100\<bar> \<le> 1000000000" "\<bar>real_of_int kp / 100\<bar> \<le> 1000000000"
      by simp_all
    have sum: "real_of_int (kb + kp) / 100 = real_of_int kb / 100 + real_of_int kp / 100"
      by (simp add: add_divide_distrib)
    have "toFixed2 (rd (balance s + cents kp)) = cents (kb + kp)"
    proof (rule toFixed2_rd_cents)
      show "\<bar>balance s + cents kp - real_of_int (kb + kp) / 100\<bar> \<le> 4 / 1000"
        using b' p' sum by linarith
      show "\<bar>balance s + cents kp\<bar> \<le> 8589934592"
        using b' p' size by linarith
    qed
    then show ?thesis
      by (simp add: cashOut_playing [OF g] p)
  qed
  from payout whole near idle exact show ?thesis
    by (simp add: cashOut_playing)
qed

theorem cashOut_credits_payout_witness:
  "gameState (startGame (1 / 2) (initial 1000 0 (1 / 2))) = Playing
   \<and> \<bar>balance (startGame (1 / 2) (initial 1000 0 (1 / 2))) - real_of_int 95000 / 100\<bar>
       \<le> 1 / 10 ^ 6
   \<and> \<bar>95000 :: int\<bar> \<le> 10 ^ 11
   \<and> \<bar>wager (startGame (1 / 2) (initial 1000 0 (1 / 2)))\<bar> \<le> 10 ^ 7
   \<and> potentialPayout (startGame (1 / 2) (initial 1000 0 (1 / 2))) = cents 5000
   \<and> \<bar>5000 :: int\<bar> \<le> 10 ^ 11
   \<and> cents 5000 = 50
   \<and> cashOut (startGame (1 / 2) (initial 1000 0 (1 / 2)))
       = (startGame (1 / 2) (initial 1000 0 (1 / 2)))\<lparr>balance := 1000, gameState := Cashout\<rparr>
   \<and> gameState (initial 1000 0 (1 / 2)) \<noteq> Playing
   \<and> cashOut (initial 1000 0 (1 / 2)) = initial 1000 0 (1 / 2)"
proof -
  define s where "s = startGame (1 / 2) (initial 1000 0 (1 / 2))"
  have g: "gameState s = Playing" and w: "wager s = 50" and n: "safeRevealed s = 0"
    and b: "balance s = 950"
    by (simp_all add: s_def startGame_eq initial_def toFixed2_def round2_def)
  have c: "cents 5000 = 50" "cents (95000 + 5000) = 1000"
    by (simp_all add: cents_def)
  have p: "potentialPayout s = cents 5000"
    by (simp add: potentialPayout_def currentMultiplier_def curvedMultiplier_def w n
        toFixed2_def round2_def c)
  have i: "gameState (initial 1000 0 (1 / 2)) \<noteq> Playing"
    by (simp add: initial_def)
  have h: "\<bar>balance s - real_of_int 95000 / 100\<bar> \<le> 1 / 10 ^ 6"
    "\<bar>95000 :: int\<bar> \<le> 10 ^ 11" "\<bar>5000 :: int\<bar> \<le> 10 ^ 11" "\<bar>wager s\<bar> \<le> 10 ^ 7"
    by (simp_all add: b w)
  have "cashOut s = s\<lparr>balance := cents (95000 + 5000), gameState := Cashout\<rparr>"
    using cashOut_credits_payout [of s 95000 5000] g h p by blast
  then have out: "cashOut s = s\<lparr>balance := 1000, gameState := Cashout\<rparr>"
    by (simp only: c)
  have idle: "cashOut (initial 1000 0 (1 / 2)) = initial 1000 0 (1 / 2)"
    using cashOut_credits_payout [of "initial 1000 0 (1 / 2)" 0 0] i by blast
  from g h p c out i idle show ?thesis
    unfolding s_def by blast
qed

section \<open>The claim system\<close>


text \<open>
  Claim C8, as stated, says that the remaining time is
  \<open>max 0 (CLAIM_INTERVAL - (now - lastClaim))\<close>, never negative. \<^verbatim>\<open>timeLeft\<close> is not
  clamped: with the default last claim \<open>0\<close> and \<open>now = 1700000000000\<close> it is
  \<open>-1699978400000\<close>, where the claimed value is \<open>0\<close>.
\<close>

theorem timeLeft_negative_counterexample:
  "timeLeft 1700000000000 (initial 1000 0 (1 / 2)) = - 1699978400000
   \<and> max 0 (CLAIM_INTERVAL - (1700000000000 - lastClaim (initial 1000 0 (1 / 2)))) = 0"
  by (simp add: timeLeft_def timeSinceClaim_def initial_def CLAIM_INTERVAL_def)

text \<open>
  Claim C8, amended. \<^verbatim>\<open>timeLeft\<close> is \<open>CLAIM_INTERVAL - (now - lastClaim)\<close>, without a
  lower bound. The clamped value \<open>max 0 (CLAIM_INTERVAL - (now - lastClaim))\<close> is \<open>0\<close>
  when a claim is available and \<^verbatim>\<open>timeLeft\<close> when it is not, and \<^verbatim>\<open>formatTime\<close>, which
  prints every value \<open>\<le> 0\<close> as ready, prints \<^verbatim>\<open>timeLeft\<close> as it prints the clamped
  value.
\<close>

theorem timeLeft_unclamped:
  "timeLeft now s = CLAIM_INTERVAL - (now - lastClaim s)
   \<and> max 0 (CLAIM_INTERVAL - (now - lastClaim s))
       = (if canClaim now s then 0 else timeLeft now s)
   \<and> formatTime (timeLeft now s)
       = formatTime (max 0 (CLAIM_INTERVAL - (now - lastClaim s)))"
  by (auto simp: timeLeft_def timeSinceClaim_def canClaim_def formatTime_def max_def)

section \<open>Calls outside their valid states\<close>

text \<open>
  Claim C9, as stated, includes that starting a round while the state is \<open>Playing\<close>
  changes nothing. \<^verbatim>\<open>startGame\<close> does not look at the state: called in the \<open>Playing\<close>
  state that follows a start with balance \<open>1000\<close> and wager \<open>50\<close>, it takes the wager
  again, from \<open>950\<close> to \<open>900\<close>.
\<close>

theorem startGame_while_playing_counterexample:
  "gameState (startGame (1 / 2) (initial 1000 0 (1 / 2))) = Playing
   \<and> balance (startGame (1 / 2) (initial 1000 0 (1 / 2))) = 950
   \<and> balance (startGame (1 / 2) (startGame (1 / 2) (initial 1000 0 (1 / 2)))) = 900
   \<and> startGame (1 / 2) (startGame (1 / 2) (initial 1000 0 (1 / 2)))
       \<noteq> startGame (1 / 2) (initial 1000 0 (1 / 2))"
proof -
  have a: "balance (startGame (1 / 2) (initial 1000 0 (1 / 2))) = 950"
    and b: "balance (startGame (1 / 2) (startGame (1 / 2) (initial 1000 0 (1 / 2)))) = 900"
    and c: "gameState (startGame (1 / 2) (initial 1000 0 (1 / 2))) = Playing"
    by (simp_all add: startGame_eq initial_def toFixed2_def round2_def)
  from a b have "startGame (1 / 2) (startGame (1 / 2) (initial 1000 0 (1 / 2)))
       \<noteq> startGame (1 / 2) (initial 1000 0 (1 / 2))"
    by auto
  with a b c show ?thesis by blast
qed

text \<open>
  Claim C9, amended. \<^verbatim>\<open>revealTile\<close> and \<^verbatim>\<open>cashOut\<close> outside \<open>Playing\<close>, and
  \<^verbatim>\<open>revealTile\<close> on an index that is already revealed, leave the whole state unchanged;
  so calling \<^verbatim>\<open>revealTile\<close> a second time on the same index changes nothing. While the
  state is \<open>Playing\<close> the Start button is disabled, so that pressing it leaves the whole
  state unchanged; the handler \<^verbatim>\<open>startGame\<close> itself has no check of the state.
\<close>

theorem invalid_calls_change_nothing:
  "(gameState s \<noteq> Playing \<longrightarrow> revealTile idx s = s \<and> cashOut s = s)
   \<and> (arr_get (revealed s) idx \<longrightarrow> revealTile idx s = s)
   \<and> revealTile idx (revealTile idx s) = revealTile idx s
   \<and> (gameState s = Playing \<longrightarrow> clickStart u s = s)"
  by (simp add: revealTile_twice)
    (simp add: revealTile_def cashOut_def clickStart_def startDisabled_def)

theorem invalid_calls_change_nothing_witness:
  "gameState (initial 1000 0 (1 / 2)) \<noteq> Playing
   \<and> revealTile 3 (initial 1000 0 (1 / 2)) = initial 1000 0 (1 / 2)
   \<and> cashOut (initial 1000 0 (1 / 2)) = initial 1000 0 (1 / 2)
   \<and> arr_get (revealed (revealTile 3 (startGame (1 / 2) (initial 1000 0 (1 / 2))))) 3
   \<and> revealTile 3 (revealTile 3 (startGame (1 / 2) (initial 1000 0 (1 / 2))))
       = revealTile 3 (startGame (1 / 2) (initial 1000 0 (1 / 2)))
   \<and> gameState (startGame (1 / 2) (initial 1000 0 (1 / 2))) = Playing
   \<and> clickStart (1 / 2) (startGame (1 / 2) (initial 1000 0 (1 / 2)))
       = startGame (1 / 2) (initial 1000 0 (1 / 2))"
proof -
  have i: "gameState (initial 1000 0 (1 / 2)) \<noteq> Playing"
    by (simp add: initial_def)
  have p: "gameState (startGame (1 / 2) (initial 1000 0 (1 / 2))) = Playing"
    by (simp add: startGame_eq)
  have r: "arr_get (revealed (revealTile 3 (startGame (1 / 2) (initial 1000 0 (1 / 2))))) 3"
    by (simp add: eval_defs)
  show ?thesis
    using i p r
      invalid_calls_change_nothing [of "initial 1000 0 (1 / 2)" 3 "1 / 2"]
      invalid_calls_change_nothing
        [of "revealTile 3 (startGame (1 / 2) (initial 1000 0 (1 / 2)))" 3 "1 / 2"]
      invalid_calls_change_nothing [of "startGame (1 / 2) (initial 1000 0 (1 / 2))" 3 "1 / 2"]
    by simp
qed

section \<open>Indices outside the board\<close>

text \<open>
  An index that is not an array index is forgotten by the next \<^verbatim>\<open>slice()\<close>: after
  revealing \<open>-1\<close> and then tile \<open>3\<close>, revealing \<open>-1\<close> counts again.
\<close>

lemma revealTile_negative_index_again:
  "safeRevealed (fold revealTile [- 1, 3, - 1] (startGame (1 / 2) (initial 1000 0 (1 / 2)))) = 3"
  by (simp add: eval_defs)

text \<open>
  Claim C10, as stated, says that in every \<open>Playing\<close> state a reveal at an index outside
  the board increments \<open>safeRevealed\<close>. Not when that index is already recorded: after
  index \<open>25\<close> has been revealed once (\<open>safeRevealed = 1\<close>), revealing \<open>25\<close> again is
  rejected as a duplicate and \<open>safeRevealed\<close> stays \<open>1\<close>.
\<close>

theorem revealTile_out_of_range_repeat_counterexample:
  "gameState (revealTile 25 (startGame (1 / 2) (initial 1000 0 (1 / 2)))) = Playing
   \<and> safeRevealed (revealTile 25 (startGame (1 / 2) (initial 1000 0 (1 / 2)))) = 1
   \<and> safeRevealed
       (revealTile 25 (revealTile 25 (startGame (1 / 2) (initial 1000 0 (1 / 2))))) = 1"
  by (simp add: revealTile_twice) (simp add: eval_defs)

text \<open>
  Claim C10, amended. \<^verbatim>\<open>revealTile\<close> does not check its index against the board. In
  every state with \<open>gameState = Playing\<close> and the hazard on the board, and for every
  integer \<open>idx\<close> outside \<open>[0, TOTAL_TILES)\<close> that is not already recorded as revealed,
  \<^verbatim>\<open>revealTile(idx)\<close> records the index as revealed, increments \<open>safeRevealed\<close> and stays
  in \<open>Playing\<close>. Hence reveals outside the board can drive \<open>safeRevealed\<close> above
  \<^verbatim>\<open>SAFE_TILES\<close> and the array beyond the board: after a start, revealing the indices
  \<open>25\<close> to \<open>49\<close> gives \<open>safeRevealed = 25\<close> and an array of length \<open>50\<close>.
\<close>

theorem revealTile_out_of_range:
  assumes "gameState s = Playing"
    and "idx < 0 \<or> TOTAL_TILES \<le> idx"
    and "\<not> arr_get (revealed s) idx"
    and "0 \<le> mineIdx s \<and> mineIdx s < TOTAL_TILES"
  shows "arr_get (revealed (revealTile idx s)) idx
    \<and> safeRevealed (revealTile idx s) = safeRevealed s + 1
    \<and> gameState (revealTile idx s) = Playing
    \<and> balance (revealTile idx s) = balance s
    \<and> safeRevealed
        (fold revealTile [25..49] (startGame (1 / 2) (initial 1000 0 (1 / 2)))) = 25
    \<and> SAFE_TILES = 24
    \<and> length (cells (revealed
        (fold revealTile [25..49] (startGame (1 / 2) (initial 1000 0 (1 / 2)))))) = 50"
proof -
  from assms(2,4) have "idx \<noteq> mineIdx s"
    by auto
  with assms(1,3) have "arr_get (revealed (revealTile idx s)) idx
    \<and> safeRevealed (revealTile idx s) = safeRevealed s + 1
    \<and> gameState (revealTile idx s) = Playing
    \<and> balance (revealTile idx s) = balance s"
    by (simp add: revealTile_def Let_def arr_get_set)
  moreover have "safeRevealed
        (fold revealTile [25..49] (startGame (1 / 2) (initial 1000 0 (1 / 2)))) = 25
    \<and> length (cells (revealed
        (fold revealTile [25..49] (startGame (1 / 2) (initial 1000 0 (1 / 2)))))) = 50"
    by (simp add: upto_rec_numeral eval_defs)
  moreover have "SAFE_TILES = 24"
    by (simp add: SAFE_TILES_def TOTAL_TILES_def SIZE_def)
  ultimately show ?thesis by blast
qed

theorem revealTile_out_of_range_witness:
  "gameState (startGame (1 / 2) (initial 1000 0 (1 / 2))) = Playing
   \<and> ((- 1 :: int) < 0 \<or> TOTAL_TILES \<le> - 1)
   \<and> \<not> arr_get (revealed (startGame (1 / 2) (initial 1000 0 (1 / 2)))) (- 1)
   \<and> 0 \<le> mineIdx (startGame (1 / 2) (initial 1000 0 (1 / 2)))
   \<and> mineIdx (startGame (1 / 2) (initial 1000 0 (1 / 2))) < TOTAL_TILES
   \<and> arr_get (revealed (revealTile (- 1) (startGame (1 / 2) (initial 1000 0 (1 / 2))))) (- 1)
   \<and> safeRevealed (revealTile (- 1) (startGame (1 / 2) (initial 1000 0 (1 / 2)))) = 1
   \<and> gameState (revealTile (- 1) (startGame (1 / 2) (initial 1000 0 (1 / 2)))) = Playing"
proof -
  have h: "gameState (startGame (1 / 2) (initial 1000 0 (1 / 2))) = Playing"
    "(- 1 :: int) < 0 \<or> TOTAL_TILES \<le> - 1"
    "\<not> arr_get (revealed (startGame (1 / 2) (initial 1000 0 (1 / 2)))) (- 1)"
    "0 \<le> mineIdx (startGame (1 / 2) (initial 1000 0 (1 / 2)))
      \<and> mineIdx (startGame (1 / 2) (initial 1000 0 (1 / 2))) < TOTAL_TILES"
    "safeRevealed (startGame (1 / 2) (initial 1000 0 (1 / 2))) = 0"
    by (simp_all add: startGame_eq fresh_board_def arr_get_def is_array_index_def
        randomMineIndex_def TOTAL_TILES_def SIZE_def)
  show ?thesis
    using h revealTile_out_of_range [OF h(1-4)] by simp
qed

end
